theory Spec2Isabelle
  imports Complex_Main "HOL-Library.Log_Nat" "HOL-Library.Sublist"
begin

section \<open>Text: characters, classes and the regular expressions of the monitor\<close>

text \<open>
  The monitor of \<^verbatim>\<open>log_steam.py\<close> reads the tail of Steam's \<^verbatim>\<open>content_log.txt\<close>,
  scans it backwards with four regular expressions and a few substring tests, and logs a
  report. A Python \<^verbatim>\<open>str\<close> is modelled as a \<^typ>\<open>string\<close> whose characters are the code
  points below 256: on these \<^verbatim>\<open>\d\<close> is exactly \<^verbatim>\<open>0\<close>..\<^verbatim>\<open>9\<close> and \<^verbatim>\<open>\s\<close> is exactly the
  twelve characters of \<open>is_space\<close>. Lines with code points from 256 on are outside the
  model. The Cyrillic literals of the source appear as constructors (the status values and
  the logged messages) or transliterated (\<open>unknown_text\<close>, \<open>placeholder_name\<close>).
\<close>

definition is_digit :: "char \<Rightarrow> bool" where
  "is_digit c = (c \<in> set ''0123456789'')"

definition is_space :: "char \<Rightarrow> bool" where
  "is_space c = (c \<in> set [CHR 0x09, CHR 0x0A, CHR 0x0B, CHR 0x0C, CHR 0x0D,
                            CHR 0x1C, CHR 0x1D, CHR 0x1E, CHR 0x1F, CHR 0x20,
                            CHR 0x85, CHR 0xA0])"

text \<open>The character classes the four patterns use: \<^verbatim>\<open>\s\<close>, \<^verbatim>\<open>\d\<close>, \<^verbatim>\<open>[\d.]\<close> and \<^verbatim>\<open>[^"]\<close>.\<close>

datatype cls = Space | Digit | DigitDot | NotQuote

fun in_cls :: "cls \<Rightarrow> char \<Rightarrow> bool" where
  "in_cls Space c = is_space c"
| "in_cls Digit c = is_digit c"
| "in_cls DigitDot c = (is_digit c \<or> c = CHR ''.'')"
| "in_cls NotQuote c = (c \<noteq> CHR 0x22)"

text \<open>
  A pattern is a sequence of literals, runs \<^verbatim>\<open>C+\<close> and captured runs \<^verbatim>\<open>(C+)\<close>. In each
  pattern of the source the class of a run excludes the first character of what follows
  it, so the greedy run is the only one that can lead to a match and no backtracking
  happens: \<open>match_here\<close> takes the longest run.
\<close>

datatype item = Lit string | Run cls | Cap cls

fun match_here :: "item list \<Rightarrow> string \<Rightarrow> string list \<Rightarrow> string list option" where
  "match_here [] s caps = Some caps"
| "match_here (Lit l # its) s caps =
     (if take (length l) s = l then match_here its (drop (length l) s) caps else None)"
| "match_here (Run k # its) s caps =
     (if takeWhile (in_cls k) s = [] then None
      else match_here its (dropWhile (in_cls k) s) caps)"
| "match_here (Cap k # its) s caps =
     (if takeWhile (in_cls k) s = [] then None
      else match_here its (dropWhile (in_cls k) s) (caps @ [takeWhile (in_cls k) s]))"

text \<open>\<^verbatim>\<open>re.search\<close>: the match at the leftmost position that has one; its groups.\<close>

fun re_search :: "item list \<Rightarrow> string \<Rightarrow> string list option" where
  "re_search p [] = match_here p [] []"
| "re_search p (c # s) =
     (case match_here p (c # s) [] of Some caps \<Rightarrow> Some caps | None \<Rightarrow> re_search p s)"

text \<open>\<^verbatim>\<open>sub in line\<close>.\<close>

definition contains :: "string \<Rightarrow> string \<Rightarrow> bool" where
  "contains sub line = (re_search [Lit sub] line \<noteq> None)"

text \<open>\<^verbatim>\<open>AppID\s+(\d+)\<close>\<close>
definition appid_re :: "item list" where
  "appid_re = [Lit ''AppID'', Run Space, Cap Digit]"

text \<open>\<^verbatim>\<open>Current download rate:\s+([\d.]+)\s+Mbps\<close>\<close>
definition speed_re :: "item list" where
  "speed_re = [Lit ''Current download rate:'', Run Space, Cap DigitDot, Run Space, Lit ''Mbps'']"

text \<open>\<^verbatim>\<open>download\s+(\d+)/(\d+)\<close>\<close>
definition size_re :: "item list" where
  "size_re = [Lit ''download'', Run Space, Cap Digit, Lit ''/'', Cap Digit]"

text \<open>\<^verbatim>\<open>"name"\s+"([^"]+)"\<close> and \<^verbatim>\<open>name\s+"([^"]+)"\<close>\<close>
definition name_re1 :: "item list" where
  "name_re1 = [Lit [CHR 0x22, CHR ''n'', CHR ''a'', CHR ''m'', CHR ''e'', CHR 0x22],
               Run Space, Lit [CHR 0x22], Cap NotQuote, Lit [CHR 0x22]]"

definition name_re2 :: "item list" where
  "name_re2 = [Lit ''name'', Run Space, Lit [CHR 0x22], Cap NotQuote, Lit [CHR 0x22]]"

section \<open>Numbers: Python's \<^verbatim>\<open>int\<close> and \<^verbatim>\<open>float\<close>\<close>

text \<open>
  The exceptions the modelled code can raise. \<open>ValueError\<close> comes from \<^verbatim>\<open>float()\<close> on a
  token that is no number and from unpacking a tuple of the wrong length;
  \<open>OverflowError\<close> from the true division of two integers whose quotient is no finite
  double.
\<close>

datatype error = ValueError | OverflowError | ZeroDivisionError

text \<open>
  Every float the monitor computes comes from an unsigned decimal token or from
  non-negative integers, so a float is a non-negative double: its exact value as a
  rational, or positive infinity.
\<close>

datatype pyfloat = Num rat | PosInf

definition digit_val :: "char \<Rightarrow> int" where
  "digit_val c = of_char c - 48"

text \<open>\<^verbatim>\<open>int(s)\<close> for a string of digits (the interpreter's limit on the number of digits is
  not modelled).\<close>

definition py_int :: "string \<Rightarrow> int" where
  "py_int ds = foldl (\<lambda>a c. 10 * a + digit_val c) 0 ds"

definition pow2 :: "int \<Rightarrow> rat" where
  "pow2 e = (if 0 \<le> e then 2 ^ nat e else 1 / 2 ^ nat (- e))"

text \<open>Rounding to the nearest integer, a tie to the even one.\<close>

definition round_half_even :: "rat \<Rightarrow> int" where
  "round_half_even q =
     (let f = \<lfloor>q\<rfloor>; r = q - of_int f
      in if r < 1 / 2 then f else if 1 / 2 < r then f + 1 else if even f then f else f + 1)"

text \<open>\<open>flog2 q\<close> is \<open>\<lfloor>log\<^sub>2 q\<rfloor>\<close> for \<open>q > 0\<close>, from the bit lengths of numerator and denominator.\<close>

definition flog2 :: "rat \<Rightarrow> int" where
  "flog2 q =
     (let k = bitlen (fst (quotient_of q)) - bitlen (snd (quotient_of q))
      in if pow2 k \<le> q then k else k - 1)"

text \<open>
  The double nearest to a non-negative rational (IEEE 754 binary64, round to nearest,
  ties to even): 53 bits of significand, exponents of the last place from \<open>-1074\<close>,
  and infinity when the rounded value reaches \<open>2\<^sup>1\<^sup>0\<^sup>2\<^sup>4\<close>.
\<close>

definition double_limit :: rat where
  "double_limit = 2 ^ 1024"

definition round_double :: "rat \<Rightarrow> pyfloat" where
  "round_double q =
     (if q = 0 then Num 0
      else let e = max (flog2 q - 52) (- 1074);
               v = of_int (round_half_even (q / pow2 e)) * pow2 e
           in if double_limit \<le> v then PosInf else Num v)"


text \<open>
  \<^verbatim>\<open>float(token)\<close> for a token of the class \<^verbatim>\<open>[\d.]+\<close>, all that \<open>speed_re\<close> captures:
  digits with at most one point and at least one digit, or \<open>ValueError\<close>.
\<close>

definition py_float :: "string \<Rightarrow> error + pyfloat" where
  "py_float tok =
     (let ip = takeWhile is_digit tok; rest = dropWhile is_digit tok
      in case rest of
           [] \<Rightarrow> if ip = [] then Inl ValueError else Inr (round_double (of_int (py_int ip)))
         | c # fp \<Rightarrow>
             if c = CHR ''.'' \<and> list_all is_digit fp \<and> (ip \<noteq> [] \<or> fp \<noteq> [])
             then Inr (round_double (of_int (py_int (ip @ fp)) / 10 ^ length fp))
             else Inl ValueError)"

text \<open>\<^verbatim>\<open>a / b\<close> on integers \<open>a \<ge> 0\<close> and \<open>b \<ge> 0\<close>, the only ones the monitor divides: the
  correctly rounded quotient, or an exception.\<close>

definition int_truediv :: "int \<Rightarrow> int \<Rightarrow> error + pyfloat" where
  "int_truediv a b =
     (if b = 0 then Inl ZeroDivisionError
      else case round_double (of_int a / of_int b) of
             PosInf \<Rightarrow> Inl OverflowError
           | Num v \<Rightarrow> Inr (Num v))"

text \<open>\<^verbatim>\<open>x * n\<close>, \<^verbatim>\<open>x / n\<close> and \<^verbatim>\<open>x >= n\<close> for a float and a positive integer constant; none
  raises.\<close>

definition float_mul :: "pyfloat \<Rightarrow> int \<Rightarrow> pyfloat" where
  "float_mul x n = (case x of PosInf \<Rightarrow> PosInf | Num q \<Rightarrow> round_double (q * of_int n))"

definition float_div :: "pyfloat \<Rightarrow> int \<Rightarrow> pyfloat" where
  "float_div x n = (case x of PosInf \<Rightarrow> PosInf | Num q \<Rightarrow> round_double (q / of_int n))"

definition float_ge :: "pyfloat \<Rightarrow> int \<Rightarrow> bool" where
  "float_ge x n = (case x of PosInf \<Rightarrow> True | Num q \<Rightarrow> of_int n \<le> q)"

subsection \<open>Formatting\<close>

text \<open>The decimal digits of a non-negative integer, and \<^verbatim>\<open>str(n)\<close>.\<close>

function show_nat :: "int \<Rightarrow> string" where
  "show_nat n =
     (if n < 10 then [char_of (48 + n)] else show_nat (n div 10) @ [char_of (48 + n mod 10)])"
  by pat_completeness auto
termination
  by (relation "measure nat") auto

declare show_nat.simps [simp del]

definition show_int :: "int \<Rightarrow> string" where
  "show_int n = (if n < 0 then CHR ''-'' # show_nat (- n) else show_nat n)"

definition zero_pad :: "nat \<Rightarrow> string \<Rightarrow> string" where
  "zero_pad k s = replicate (k - length s) (CHR ''0'') @ s"

text \<open>\<^verbatim>\<open>f"{x:.kf}"\<close> for \<open>k > 0\<close>: the exact value of the double, rounded to \<open>k\<close> decimals
  (ties to even).\<close>

definition fmt_fixed :: "nat \<Rightarrow> pyfloat \<Rightarrow> string" where
  "fmt_fixed k x =
     (case x of
        PosInf \<Rightarrow> ''inf''
      | Num q \<Rightarrow>
          (let n = round_half_even (q * 10 ^ k)
           in show_nat (n div 10 ^ k) @ ''.'' @ zero_pad k (show_nat (n mod 10 ^ k))))"

text \<open>The source returns the Russian word for "unknown" (ten Cyrillic letters); it is
  written here in Latin letters.\<close>

definition unknown_text :: string where
  "unknown_text = ''neizvestno''"

definition format_speed :: "pyfloat option \<Rightarrow> string" where
  "format_speed speed_mbps =
     (case speed_mbps of
        None \<Rightarrow> unknown_text
      | Some x \<Rightarrow>
          if float_ge x 1000 then fmt_fixed 2 (float_div x 1000) @ '' Gbps''
          else fmt_fixed 2 x @ '' Mbps'')"

definition format_size :: "int option \<Rightarrow> error + string" where
  "format_size bytes_size =
     (case bytes_size of
        None \<Rightarrow> Inr unknown_text
      | Some b \<Rightarrow>
          if 1024 ^ 3 \<le> b then
            (case int_truediv b (1024 ^ 3) of Inl e \<Rightarrow> Inl e | Inr x \<Rightarrow> Inr (fmt_fixed 2 x @ '' GB''))
          else if 1024 ^ 2 \<le> b then
            (case int_truediv b (1024 ^ 2) of Inl e \<Rightarrow> Inl e | Inr x \<Rightarrow> Inr (fmt_fixed 2 x @ '' MB''))
          else if 1024 \<le> b then
            (case int_truediv b 1024 of Inl e \<Rightarrow> Inl e | Inr x \<Rightarrow> Inr (fmt_fixed 2 x @ '' KB''))
          else Inr (show_int b @ '' B''))"

section \<open>The monitor\<close>

subsection \<open>Files and state\<close>

text \<open>
  What the monitor finds at a path: nothing (\<^verbatim>\<open>exists()\<close> is false), a file whose
  reading raises, or the content. The log's content is the list \<^verbatim>\<open>readlines()\<close> returns,
  oldest line first; a manifest's content is one string.
\<close>

datatype 'a fs_entry = Absent | Unreadable | Content 'a

text \<open>
  The status is one of six Russian words in the source: "unknown" before the loop, then
  "downloading", "paused", "verifying files", "preparing space" and "unpacking" for the
  keywords \<^verbatim>\<open>Downloading\<close>, \<^verbatim>\<open>Paused\<close>, \<^verbatim>\<open>Verifying\<close>, \<^verbatim>\<open>Preallocating\<close>, \<^verbatim>\<open>Staging\<close>.
\<close>

datatype status = Unknown | Downloading | Paused | Verifying | Preallocating | Staging

text \<open>The six values \<open>parse_log_file\<close> returns from its loop, named as \<open>display_info\<close>
  unpacks them.\<close>

record snapshot =
  appid :: "string option"
  speed :: "pyfloat option"
  status :: status
  progress :: "pyfloat option"
  downloaded :: "int option"
  total :: "int option"

text \<open>\<open>parse_log_file\<close> returns a tuple of three \<^verbatim>\<open>None\<close> when it has no lines, and of six values
  otherwise.\<close>

datatype parsed = Three_nones | Six snapshot

text \<open>What the logger receives: one constructor for each call of the logger in
  \<open>parse_log_file\<close>, \<open>get_game_name_from_manifest\<close> and \<open>display_info\<close>, with the values
  its message is built from.\<close>

datatype message =
    Log_not_found
  | Log_read_error
  | Manifest_read_error
  | Rule_after_newline
  | Rule
  | Check_header int int string
  | Game_line "string option"
  | AppID_line string
  | Status_line status
  | Speed_line string
  | Progress_line string
  | Loaded_line string string
  | State_line status
  | No_active_downloads

subsection \<open>\<open>parse_log_file\<close>\<close>

text \<open>Python's truth value of \<^verbatim>\<open>appid\<close>: neither \<^verbatim>\<open>None\<close> nor the empty string.\<close>

definition truthy :: "string option \<Rightarrow> bool" where
  "truthy a = (case a of None \<Rightarrow> False | Some s \<Rightarrow> s \<noteq> [])"

text \<open>The four steps of the loop's body on one line, in the order of the source.\<close>

definition find_appid :: "string option \<Rightarrow> string \<Rightarrow> string option" where
  "find_appid a line =
     (if a = None then
        (case re_search appid_re line of Some caps \<Rightarrow> Some (caps ! 0) | None \<Rightarrow> None)
      else a)"

definition find_speed :: "pyfloat option \<Rightarrow> string \<Rightarrow> error + pyfloat option" where
  "find_speed sp line =
     (if sp = None then
        (case re_search speed_re line of
           Some caps \<Rightarrow> (case py_float (caps ! 0) of Inl e \<Rightarrow> Inl e | Inr x \<Rightarrow> Inr (Some x))
         | None \<Rightarrow> Inr None)
      else Inr sp)"

definition find_status :: "status \<Rightarrow> string \<Rightarrow> status" where
  "find_status st line =
     (if contains ''App update changed'' line then
        (if contains ''Downloading'' line then Downloading
         else if contains ''Paused'' line then Paused
         else if contains ''Verifying'' line then Verifying
         else if contains ''Preallocating'' line then Preallocating
         else if contains ''Staging'' line then Staging
         else st)
      else st)"

text \<open>The size step: \<open>Inr (Some (progress, downloaded, total))\<close> when the loop returns at
  this line.\<close>

definition find_size :: "string option \<Rightarrow> string \<Rightarrow> error + (pyfloat \<times> int \<times> int) option" where
  "find_size a line =
     (if contains ''update started'' line \<and> truthy a then
        (case re_search size_re line of
           Some caps \<Rightarrow>
             (let d = py_int (caps ! 0); t = py_int (caps ! 1)
              in if 0 < t then
                   (case int_truediv d t of
                      Inl e \<Rightarrow> Inl e
                    | Inr x \<Rightarrow> Inr (Some (float_mul x 100, d, t)))
                 else Inr None)
         | None \<Rightarrow> Inr None)
      else Inr None)"

text \<open>The loop over \<^verbatim>\<open>reversed(lines)\<close>: the argument list is most recent line first.\<close>

fun scan :: "string list \<Rightarrow> string option \<Rightarrow> pyfloat option \<Rightarrow> status \<Rightarrow> error + snapshot" where
  "scan [] a sp st =
     Inr \<lparr>appid = a, speed = sp, status = st, progress = None, downloaded = None, total = None\<rparr>"
| "scan (line # older) a sp st =
     (let a' = find_appid a line
      in case find_speed sp line of
           Inl e \<Rightarrow> Inl e
         | Inr sp' \<Rightarrow>
             (let st' = find_status st line
              in case find_size a' line of
                   Inl e \<Rightarrow> Inl e
                 | Inr (Some (p, d, t)) \<Rightarrow>
                     Inr \<lparr>appid = a', speed = sp', status = st', progress = Some p,
                          downloaded = Some d, total = Some t\<rparr>
                 | Inr None \<Rightarrow> scan older a' sp' st'))"

text \<open>The last 50 lines.\<close>

definition window :: "string list \<Rightarrow> string list" where
  "window lines = (if 50 < length lines then drop (length lines - 50) lines else lines)"

text \<open>The scan of a window given oldest line first, as the file has it.\<close>

definition parse_lines :: "string list \<Rightarrow> error + snapshot" where
  "parse_lines lines = scan (rev lines) None None Unknown"

definition parse_log_file :: "string list fs_entry \<Rightarrow> message list \<times> (error + parsed)" where
  "parse_log_file log_file =
     (case log_file of
        Absent \<Rightarrow> ([Log_not_found], Inr Three_nones)
      | Unreadable \<Rightarrow> ([Log_read_error], Inr Three_nones)
      | Content lines \<Rightarrow>
          ([], case parse_lines (window lines) of Inl e \<Rightarrow> Inl e | Inr s \<Rightarrow> Inr (Six s)))"

subsection \<open>\<open>get_game_name_from_manifest\<close>\<close>

text \<open>The placeholder of the source is the Russian word for "game" and the identifier in
  brackets; the word is written here in Latin letters.\<close>

definition placeholder_name :: "string \<Rightarrow> string" where
  "placeholder_name a = ''Igra (AppID: '' @ a @ '')''"

text \<open>The manifests of the Steam directory, by identifier
  (\<^verbatim>\<open>steamapps/appmanifest_<appid>.acf\<close>).\<close>

type_synonym manifests = "string \<Rightarrow> string fs_entry"

definition get_game_name_from_manifest :: "manifests \<Rightarrow> string \<Rightarrow> message list \<times> string" where
  "get_game_name_from_manifest ms a =
     (case ms a of
        Absent \<Rightarrow> ([], placeholder_name a)
      | Unreadable \<Rightarrow> ([Manifest_read_error], placeholder_name a)
      | Content c \<Rightarrow>
          (case re_search name_re1 c of
             Some caps \<Rightarrow> ([], caps ! 0)
           | None \<Rightarrow>
               (case re_search name_re2 c of
                  Some caps \<Rightarrow> ([], caps ! 0)
                | None \<Rightarrow> ([], placeholder_name a))))"

text \<open>The three ways the lookup ends at the placeholder: no manifest, a manifest whose
  reading raises, a content that neither pattern matches.\<close>

definition lookup_fails :: "manifests \<Rightarrow> string \<Rightarrow> bool" where
  "lookup_fails ms a =
     (case ms a of
        Absent \<Rightarrow> True
      | Unreadable \<Rightarrow> True
      | Content c \<Rightarrow> re_search name_re1 c = None \<and> re_search name_re2 c = None)"

subsection \<open>\<open>display_info\<close>\<close>

text \<open>The two fields of the monitor that \<open>display_info\<close> reads and writes.\<close>

record monitor =
  current_appid :: "string option"
  game_name :: "string option"

text \<open>What one call leaves behind: the monitor's fields, the messages logged in order, and
  the exception that ended the call, if one did.\<close>

record outcome =
  state :: monitor
  logged :: "message list"
  raised :: "error option"

text \<open>Lines 185 to 187: the name is looked up when the identifier differs from the last
  one, and both fields are set.\<close>

definition refresh_name :: "manifests \<Rightarrow> string \<Rightarrow> monitor \<Rightarrow> message list \<times> monitor" where
  "refresh_name ms a mon =
     (if Some a \<noteq> current_appid mon then
        (let (msgs, n) = get_game_name_from_manifest ms a
         in (msgs, mon\<lparr>current_appid := Some a, game_name := Some n\<rparr>))
      else ([], mon))"

text \<open>Lines 193 and 194.\<close>

definition speed_lines :: "snapshot \<Rightarrow> message list" where
  "speed_lines s =
     (if speed s \<noteq> None \<and> status s = Downloading then [Speed_line (format_speed (speed s))]
      else [])"

text \<open>Lines 196 to 198; \<open>format_size\<close> may raise after the progress is logged.\<close>

definition progress_lines :: "snapshot \<Rightarrow> message list \<times> error option" where
  "progress_lines s =
     (case progress s of
        None \<Rightarrow> ([], None)
      | Some p \<Rightarrow>
          (case format_size (downloaded s) of
             Inl e \<Rightarrow> ([Progress_line (fmt_fixed 1 p @ ''%'')], Some e)
           | Inr d \<Rightarrow>
               (case format_size (total s) of
                  Inl e \<Rightarrow> ([Progress_line (fmt_fixed 1 p @ ''%'')], Some e)
                | Inr t \<Rightarrow> ([Progress_line (fmt_fixed 1 p @ ''%''), Loaded_line d t], None))))"

text \<open>Lines 179 to 202, for the six values unpacked at line 177.\<close>

definition report :: "manifests \<Rightarrow> int \<Rightarrow> int \<Rightarrow> string \<Rightarrow> monitor \<Rightarrow> snapshot \<Rightarrow> outcome" where
  "report ms check_number total_checks now mon s =
     (let header = [Rule_after_newline, Check_header check_number total_checks now, Rule]
      in case appid s of
           None \<Rightarrow> \<lparr>state = mon, logged = header @ [No_active_downloads], raised = None\<rparr>
         | Some a \<Rightarrow>
             if a = [] then \<lparr>state = mon, logged = header @ [No_active_downloads], raised = None\<rparr>
             else
               (let (m1, mon') = refresh_name ms a mon;
                    body = m1 @ [Game_line (game_name mon'), AppID_line a, Status_line (status s)]
                             @ speed_lines s;
                    (m2, err) = progress_lines s
                in case err of
                     Some e \<Rightarrow> \<lparr>state = mon', logged = header @ body @ m2, raised = Some e\<rparr>
                   | None \<Rightarrow>
                       \<lparr>state = mon', logged = header @ body @ m2 @ [State_line (status s)],
                        raised = None\<rparr>))"

text \<open>
  \<open>display_info\<close>: \<open>parse_log_file\<close>, then the unpacking of its result into six names, which
  raises \<open>ValueError\<close> on the tuple of three, then the report. \<open>now\<close> is the clock's
  \<^verbatim>\<open>%H:%M:%S\<close>.
\<close>

definition display_info ::
    "string list fs_entry \<Rightarrow> manifests \<Rightarrow> int \<Rightarrow> int \<Rightarrow> string \<Rightarrow> monitor \<Rightarrow> outcome" where
  "display_info log_file ms check_number total_checks now mon =
     (case parse_log_file log_file of
        (m0, Inl e) \<Rightarrow> \<lparr>state = mon, logged = m0, raised = Some e\<rparr>
      | (m0, Inr Three_nones) \<Rightarrow> \<lparr>state = mon, logged = m0, raised = Some ValueError\<rparr>
      | (m0, Inr (Six s)) \<Rightarrow>
          (let r = report ms check_number total_checks now mon s
           in r\<lparr>logged := m0 @ logged r\<rparr>))"

subsection \<open>An example window\<close>

text \<open>The window of the specification's end-to-end example, oldest line first.\<close>

definition example_window :: "string list" where
  "example_window =
     [''update started : download 1000/2000'',
      ''AppID 42'',
      ''App update changed : Downloading'',
      ''Current download rate: 12.50 Mbps'']"

definition example_snapshot :: snapshot where
  "example_snapshot =
     \<lparr>appid = Some ''42'', speed = Some (Num (25 / 2)), status = Downloading,
      progress = Some (Num 50), downloaded = Some 1000, total = Some 2000\<rparr>"

section \<open>Evaluation\<close>

text \<open>The bound of the doubles as a numeral, for evaluation.\<close>

lemma double_limit_numeral [code]:
  "double_limit = 179769313486231590772930519078902473361797697894230657273430081157732675805500963132708477322407536021120113879871393357658789768814416622492847430639474124377767893424865485276302219601246094119453082952085005768838150682342462881473913110540827237163350510684586298239947245938479716304835356329624224137216"
  by (simp add: double_limit_def)

lemma parse_example_window: "parse_lines example_window = Inr example_snapshot"
  by code_simp

lemma window_example: "window example_window = example_window"
  by code_simp

lemma speed_lines_example: "speed_lines example_snapshot = [Speed_line ''12.50 Mbps'']"
  by code_simp

lemma progress_lines_example:
  "progress_lines example_snapshot =
     ([Progress_line ''50.0%'', Loaded_line ''1000 B'' ''1.95 KB''], None)"
  by code_simp

section \<open>The backward scan\<close>

subsection \<open>The steps of the loop\<close>


lemma find_appid_cases:
  "find_appid a l = a \<or> (a = None \<and> re_search appid_re l \<noteq> None)"
  by (auto simp: find_appid_def split: option.splits)


lemma find_speed_no_match:
  "re_search speed_re l = None \<Longrightarrow> find_speed None l = Inr None"
  by (simp add: find_speed_def)

lemma py_float_error: "py_float tok = Inl e \<Longrightarrow> e = ValueError"
  by (auto simp: py_float_def Let_def split: list.splits if_splits)

lemma find_speed_malformed:
  "re_search speed_re l = Some caps \<Longrightarrow> py_float (caps ! 0) = Inl e \<Longrightarrow>
     find_speed None l = Inl ValueError"
  by (auto simp: find_speed_def dest: py_float_error)


lemma find_size_not_started:
  "\<not> contains ''update started'' l \<Longrightarrow> find_size a l = Inr None"
  by (simp add: find_size_def)

lemma find_size_Some:
  "find_size a l = Inr (Some (p, d, t)) \<Longrightarrow>
     truthy a \<and> (\<exists>caps. re_search size_re l = Some caps \<and> d = py_int (caps ! 0) \<and>
                        t = py_int (caps ! 1) \<and> 0 < t)"
  by (auto simp: find_size_def Let_def split: if_splits option.splits sum.splits)



subsection \<open>The loop\<close>

text \<open>One iteration, when the loop ends with a result: the rate step did not raise, and
  either the size step returned at this line or the loop went on with the older lines.\<close>

lemma scan_Cons_Inr:
  assumes "scan (l # ls) a sp st = Inr s"
  obtains sp' where "find_speed sp l = Inr sp'"
    and "(\<exists>p d t. find_size (find_appid a l) l = Inr (Some (p, d, t)) \<and>
           s = \<lparr>appid = find_appid a l, speed = sp', status = find_status st l,
                progress = Some p, downloaded = Some d, total = Some t\<rparr>)
         \<or> (find_size (find_appid a l) l = Inr None \<and>
             scan ls (find_appid a l) sp' (find_status st l) = Inr s)"
  using assms by (auto simp: Let_def split: sum.splits option.splits)


lemma scan_with_progress:
  "scan ls a sp st = Inr s \<Longrightarrow> progress s \<noteq> None \<Longrightarrow>
     truthy (appid s) \<and>
     (appid s = a \<or> (\<exists>l\<in>set ls. re_search appid_re l \<noteq> None)) \<and>
     (\<exists>l\<in>set ls. \<exists>caps. re_search size_re l = Some caps \<and>
        downloaded s = Some (py_int (caps ! 0)) \<and> total s = Some (py_int (caps ! 1)) \<and>
        0 < py_int (caps ! 1))"
proof (induction ls arbitrary: a sp st)
  case Nil
  then show ?case by auto
next
  case (Cons l ls)
  from Cons.prems(1) obtain sp' where "find_speed sp l = Inr sp'"
    and alt: "(\<exists>p d t. find_size (find_appid a l) l = Inr (Some (p, d, t)) \<and>
           s = \<lparr>appid = find_appid a l, speed = sp', status = find_status st l,
                progress = Some p, downloaded = Some d, total = Some t\<rparr>)
         \<or> (find_size (find_appid a l) l = Inr None \<and>
             scan ls (find_appid a l) sp' (find_status st l) = Inr s)"
    by (rule scan_Cons_Inr)
  from alt show ?case
  proof
    assume "\<exists>p d t. find_size (find_appid a l) l = Inr (Some (p, d, t)) \<and>
           s = \<lparr>appid = find_appid a l, speed = sp', status = find_status st l,
                progress = Some p, downloaded = Some d, total = Some t\<rparr>"
    then obtain p d t where fs: "find_size (find_appid a l) l = Inr (Some (p, d, t))"
      and s: "s = \<lparr>appid = find_appid a l, speed = sp', status = find_status st l,
                progress = Some p, downloaded = Some d, total = Some t\<rparr>"
      by blast
    from find_size_Some [OF fs] find_appid_cases [of a l] s
    show ?thesis by auto
  next
    assume "find_size (find_appid a l) l = Inr None \<and>
             scan ls (find_appid a l) sp' (find_status st l) = Inr s"
    then have "scan ls (find_appid a l) sp' (find_status st l) = Inr s" ..
    from Cons.IH [OF this Cons.prems(2)] find_appid_cases [of a l]
    show ?thesis by auto
  qed
qed




lemma scan_reaches_malformed:
  assumes "re_search speed_re l = Some caps" and "py_float (caps ! 0) = Inl e"
    and "\<forall>x\<in>set newer. re_search speed_re x = None \<and> \<not> contains ''update started'' x"
  shows "scan (newer @ l # older) a None st = Inl ValueError"
  using assms(3)
proof (induction newer arbitrary: a st)
  case Nil
  show ?case by (simp add: find_speed_malformed [OF assms(1,2)])
next
  case (Cons x newer)
  then show ?case
    by (simp add: find_speed_no_match find_size_not_started)
qed

lemma parse_log_file_example:
  "parse_log_file (Content example_window) = ([], Inr (Six example_snapshot))"
  by (simp add: parse_log_file_def window_example parse_example_window)

subsection \<open>The claims about the scan\<close>

text \<open>
  C1 (the status is the phase of the most recent phase-change line; older phase-change
  lines do not change it). The loop guards the identifier and the rate with
  \<^verbatim>\<open>is None\<close> but assigns the status at every phase-change line it meets, so going
  backwards the oldest line it reaches wins. In the window below the most recent line
  says \<^verbatim>\<open>Downloading\<close> and the older one \<^verbatim>\<open>Paused\<close>; the status returned is \<open>Paused\<close>.
\<close>

theorem status_taken_from_older_line:
  "parse_lines [''App update changed : Paused'', ''App update changed : Downloading''] =
     Inr \<lparr>appid = None, speed = None, status = Paused, progress = None,
          downloaded = None, total = None\<rparr>"
  by code_simp





text \<open>
  C4 (a malformed numeric token is skipped and the parse goes on), as the code has it:
  \<^verbatim>\<open>float()\<close> raises on the token and nothing in \<open>parse_log_file\<close> catches it. A rate line
  with a token that is no number, met while the rate is unresolved and before the loop
  has returned, ends the whole parse with \<open>ValueError\<close>, whatever the older lines are.
\<close>

theorem malformed_rate_token_raises:
  assumes "re_search speed_re l = Some caps" and "py_float (caps ! 0) = Inl e"
    and "\<forall>x\<in>set newer. re_search speed_re x = None \<and> \<not> contains ''update started'' x"
  shows "parse_lines (older @ l # newer) = Inl ValueError"
proof -
  from assms(3)
  have "\<forall>x\<in>set (rev newer). re_search speed_re x = None \<and> \<not> contains ''update started'' x"
    by simp
  from scan_reaches_malformed [OF assms(1,2) this, of "rev older" None Unknown]
  show ?thesis by (simp add: parse_lines_def)
qed

theorem malformed_rate_token_raises_witness:
  "re_search speed_re ''Current download rate: 1.2.3 Mbps'' = Some [''1.2.3''] \<and>
   py_float ''1.2.3'' = Inl ValueError \<and>
   parse_lines [''App update changed : Paused'', ''Current download rate: 1.2.3 Mbps'',
                ''AppID 42''] = Inl ValueError"
proof -
  have m: "re_search speed_re ''Current download rate: 1.2.3 Mbps'' = Some [''1.2.3'']"
    by code_simp
  have f: "py_float ([''1.2.3''] ! 0) = Inl ValueError"
    by code_simp
  have n: "\<forall>x\<in>set [''AppID 42'']. re_search speed_re x = None \<and> \<not> contains ''update started'' x"
    by code_simp
  from malformed_rate_token_raises [OF m f n, of "[''App update changed : Paused'']"] m f
  show ?thesis by simp
qed

text \<open>The claim as stated fails: the token \<^verbatim>\<open>1.2.3\<close> matches the pattern, and the parse
  raises instead of returning the identifier of the other line.\<close>

theorem malformed_rate_token_counterexample:
  "re_search speed_re ''Current download rate: 1.2.3 Mbps'' = Some [''1.2.3''] \<and>
   parse_lines [''Current download rate: 1.2.3 Mbps'', ''AppID 42''] = Inl ValueError"
  by code_simp

text \<open>
  C5 (a snapshot with a progress has an identifier and a positive total): when
  \<open>parse_log_file\<close> returns a progress, the identifier is a non-empty string, some line
  of the window matches the identifier pattern, and the byte counts are those of a size
  line of the window whose total is positive. So a window without an identifier line, or
  whose size lines all have a total of zero, gives no progress.
\<close>

theorem progress_needs_identifier_and_positive_total:
  assumes "parse_log_file (Content lines) = (msgs, Inr (Six s))" and "progress s \<noteq> None"
  shows "(\<exists>a. appid s = Some a \<and> a \<noteq> []) \<and>
         (\<exists>l\<in>set (window lines). re_search appid_re l \<noteq> None) \<and>
         (\<exists>l\<in>set (window lines). \<exists>caps. re_search size_re l = Some caps \<and>
            downloaded s = Some (py_int (caps ! 0)) \<and> total s = Some (py_int (caps ! 1)) \<and>
            0 < py_int (caps ! 1))"
proof -
  from assms(1) have "scan (rev (window lines)) None None Unknown = Inr s"
    by (auto simp: parse_log_file_def parse_lines_def split: sum.splits)
  from scan_with_progress [OF this assms(2)]
  show ?thesis by (auto simp: truthy_def split: option.splits)
qed

theorem progress_needs_identifier_and_positive_total_witness:
  "parse_log_file (Content example_window) = ([], Inr (Six example_snapshot)) \<and>
   progress example_snapshot \<noteq> None \<and>
   (\<exists>a. appid example_snapshot = Some a \<and> a \<noteq> []) \<and>
   (\<exists>l\<in>set (window example_window). re_search appid_re l \<noteq> None) \<and>
   (\<exists>l\<in>set (window example_window). \<exists>caps. re_search size_re l = Some caps \<and>
      downloaded example_snapshot = Some (py_int (caps ! 0)) \<and>
      total example_snapshot = Some (py_int (caps ! 1)) \<and> 0 < py_int (caps ! 1))"
proof -
  have p: "progress example_snapshot \<noteq> None"
    by (simp add: example_snapshot_def)
  from progress_needs_identifier_and_positive_total [OF parse_log_file_example p]
    parse_log_file_example p
  show ?thesis by blast
qed


section \<open>The report\<close>

subsection \<open>What each part logs and changes\<close>

lemma parse_log_file_messages:
  "parse_log_file lf = (m0, r) \<Longrightarrow> set m0 \<subseteq> {Log_not_found, Log_read_error}"
  by (auto simp: parse_log_file_def split: fs_entry.splits)

lemma get_game_name_messages:
  "set (fst (get_game_name_from_manifest ms a)) \<subseteq> {Manifest_read_error}"
  by (auto simp: get_game_name_from_manifest_def split: fs_entry.splits option.splits)

lemma refresh_name_messages:
  "set (fst (refresh_name ms a mon)) \<subseteq> {Manifest_read_error}"
  using get_game_name_messages [of ms a]
  by (auto simp: refresh_name_def split: prod.splits)

lemma progress_lines_messages:
  "Speed_line x \<notin> set (fst (progress_lines s))"
  by (auto simp: progress_lines_def split: option.splits sum.splits)

lemma speed_lines_member:
  "Speed_line x \<in> set (speed_lines s) \<longleftrightarrow>
     speed s \<noteq> None \<and> status s = Downloading \<and> x = format_speed (speed s)"
  by (auto simp: speed_lines_def)

lemma report_speed_line:
  "Speed_line x \<in> set (logged (report ms n t now mon s)) \<Longrightarrow>
     speed s \<noteq> None \<and> status s = Downloading \<and> x = format_speed (speed s)"
  using refresh_name_messages [of ms "the (appid s)" mon] progress_lines_messages [of x s]
  by (auto simp: report_def Let_def speed_lines_member
           split: option.splits if_splits prod.splits)

lemma display_info_Six:
  "parse_log_file lf = (m0, Inr (Six s)) \<Longrightarrow>
     display_info lf ms n t now mon =
       (report ms n t now mon s)\<lparr>logged := m0 @ logged (report ms n t now mon s)\<rparr>"
  by (simp add: display_info_def Let_def)

lemma display_info_not_Six:
  "(\<nexists>m0 s. parse_log_file lf = (m0, Inr (Six s))) \<Longrightarrow>
     state (display_info lf ms n t now mon) = mon \<and>
     logged (display_info lf ms n t now mon) = fst (parse_log_file lf) \<and>
     raised (display_info lf ms n t now mon) \<noteq> None"
  by (cases "parse_log_file lf") (auto simp: display_info_def split: sum.splits parsed.splits)

lemma report_example:
  "logged (report ms n t now mon example_snapshot) =
     [Rule_after_newline, Check_header n t now, Rule] @ fst (refresh_name ms ''42'' mon) @
     [Game_line (game_name (snd (refresh_name ms ''42'' mon))), AppID_line ''42'',
      Status_line Downloading, Speed_line ''12.50 Mbps'', Progress_line ''50.0%'',
      Loaded_line ''1000 B'' ''1.95 KB'', State_line Downloading] \<and>
   raised (report ms n t now mon example_snapshot) = None"
proof -
  have a: "appid example_snapshot = Some ''42''" "status example_snapshot = Downloading"
    by (simp_all add: example_snapshot_def)
  show ?thesis
    by (simp add: report_def a speed_lines_example progress_lines_example split: prod.splits)
qed

lemma report_state_cases:
  "state (report ms n t now mon s) =
     (case appid s of
        None \<Rightarrow> mon
      | Some a \<Rightarrow> if a = [] then mon else snd (refresh_name ms a mon))"
  by (simp add: report_def Let_def split: option.splits prod.splits)

lemma display_info_state_Six:
  "parse_log_file lf = (m0, Inr (Six s)) \<Longrightarrow>
     state (display_info lf ms n t now mon) = state (report ms n t now mon s)"
  by (simp add: display_info_Six)

lemma refresh_name_same: "current_appid mon = Some a \<Longrightarrow> refresh_name ms a mon = ([], mon)"
  by (simp add: refresh_name_def)

lemma refresh_name_new:
  "Some a \<noteq> current_appid mon \<Longrightarrow>
     snd (refresh_name ms a mon) =
       mon\<lparr>current_appid := Some a,
           game_name := Some (snd (get_game_name_from_manifest ms a))\<rparr>"
  by (simp add: refresh_name_def split: prod.splits)

lemma lookup_fails_placeholder:
  "lookup_fails ms a \<Longrightarrow> snd (get_game_name_from_manifest ms a) = placeholder_name a"
  by (auto simp: lookup_fails_def get_game_name_from_manifest_def split: fs_entry.splits)

lemma parse_identifier_only:
  "parse_log_file (Content [''AppID 42'']) =
     ([], Inr (Six \<lparr>appid = Some ''42'', speed = None, status = Unknown, progress = None,
                    downloaded = None, total = None\<rparr>))"
  by code_simp

lemma display_info_empty_log:
  "display_info (Content []) ms n t now mon =
     \<lparr>state = mon,
      logged = [Rule_after_newline, Check_header n t now, Rule, No_active_downloads],
      raised = None\<rparr>"
  by (simp add: display_info_def parse_log_file_def window_def parse_lines_def report_def)

subsection \<open>The claims about the report\<close>

text \<open>
  C3 (with the log absent or unreadable, \<open>display_info\<close> completes and reports no active
  downloads). \<open>parse_log_file\<close> logs its warning and returns three \<^verbatim>\<open>None\<close>, and
  \<open>display_info\<close> unpacks the result into six names: the call ends with \<open>ValueError\<close>
  before anything of the report is logged. Only the empty log gives the report the claim
  describes (\<open>display_info_empty_log\<close>).
\<close>

theorem display_info_raises_without_log:
  "display_info Absent ms n t now mon =
     \<lparr>state = mon, logged = [Log_not_found], raised = Some ValueError\<rparr> \<and>
   display_info Unreadable ms n t now mon =
     \<lparr>state = mon, logged = [Log_read_error], raised = Some ValueError\<rparr>"
  by (simp add: display_info_def parse_log_file_def)

text \<open>
  C6 (a failed lookup returns the placeholder and the cache does not keep it), as the code
  has it: the lookup returns the placeholder, which contains the identifier, and
  \<open>display_info\<close> stores it as the name together with the identifier. Every later call
  that parses the same identifier keeps the placeholder, whatever the manifests are by
  then: the lookup is not made again.
\<close>

theorem failed_lookup_placeholder_is_cached:
  assumes "lookup_fails ms a"
    and "parse_log_file lf = (m0, Inr (Six s))" and "appid s = Some a" and "a \<noteq> []"
    and "Some a \<noteq> current_appid mon"
  shows "snd (get_game_name_from_manifest ms a) = placeholder_name a \<and>
         (\<exists>u v. placeholder_name a = u @ a @ v) \<and>
         state (display_info lf ms n t now mon) =
           \<lparr>current_appid = Some a, game_name = Some (placeholder_name a)\<rparr> \<and>
         (\<forall>lf' ms' n' t' now' m0' s'.
            parse_log_file lf' = (m0', Inr (Six s')) \<and> appid s' = Some a \<longrightarrow>
            state (display_info lf' ms' n' t' now' (state (display_info lf ms n t now mon))) =
              \<lparr>current_appid = Some a, game_name = Some (placeholder_name a)\<rparr>)"
proof -
  have e: "\<exists>u v. placeholder_name a = u @ a @ v"
    unfolding placeholder_name_def by blast
  have st: "state (display_info lf ms n t now mon) =
           \<lparr>current_appid = Some a, game_name = Some (placeholder_name a)\<rparr>"
    using assms
    by (simp add: display_info_state_Six report_state_cases refresh_name_new
          lookup_fails_placeholder)
  have "state (display_info lf' ms' n' t' now'
                 \<lparr>current_appid = Some a, game_name = Some (placeholder_name a)\<rparr>) =
          \<lparr>current_appid = Some a, game_name = Some (placeholder_name a)\<rparr>"
    if "parse_log_file lf' = (m0', Inr (Six s'))" and "appid s' = Some a"
    for lf' ms' n' t' now' m0' s'
    using that assms(4)
    by (simp add: display_info_state_Six report_state_cases refresh_name_same)
  with e st lookup_fails_placeholder [OF assms(1)] show ?thesis
    by auto
qed

theorem failed_lookup_placeholder_is_cached_witness:
  "lookup_fails (\<lambda>a. Absent) ''42'' \<and>
   parse_log_file (Content [''AppID 42'']) =
     ([], Inr (Six \<lparr>appid = Some ''42'', speed = None, status = Unknown, progress = None,
                    downloaded = None, total = None\<rparr>)) \<and>
   snd (get_game_name_from_manifest (\<lambda>a. Absent) ''42'') = ''Igra (AppID: 42)'' \<and>
   state (display_info (Content [''AppID 42'']) (\<lambda>a. Absent) 1 5 ''12:00:00''
            \<lparr>current_appid = None, game_name = None\<rparr>) =
     \<lparr>current_appid = Some ''42'', game_name = Some ''Igra (AppID: 42)''\<rparr>"
proof -
  have f: "lookup_fails (\<lambda>a. Absent) ''42''"
    by (simp add: lookup_fails_def)
  have pn: "placeholder_name ''42'' = ''Igra (AppID: 42)''"
    by (simp add: placeholder_name_def)
  from failed_lookup_placeholder_is_cached
    [OF f parse_identifier_only, where mon = "\<lparr>current_appid = None, game_name = None\<rparr>"
       and n = 1 and t = 5 and now = "''12:00:00''"] f parse_identifier_only pn
  show ?thesis by simp
qed

text \<open>The claim as stated fails: after a call with no manifest the state holds the
  placeholder, and a second call, with a manifest that names the game, still has it.\<close>

theorem placeholder_is_cached_counterexample:
  "state (display_info (Content [''AppID 42'']) (\<lambda>a. Absent) 1 5 ''12:00:00''
            \<lparr>current_appid = None, game_name = None\<rparr>) =
     \<lparr>current_appid = Some ''42'', game_name = Some (placeholder_name ''42'')\<rparr> \<and>
   get_game_name_from_manifest
     (\<lambda>a. Content [CHR 0x22, CHR ''n'', CHR ''a'', CHR ''m'', CHR ''e'', CHR 0x22, CHR 0x09,
                    CHR 0x22, CHR ''P'', CHR ''o'', CHR ''r'', CHR ''t'', CHR ''a'', CHR ''l'',
                    CHR 0x22]) ''42'' = ([], ''Portal'') \<and>
   game_name (state (display_info (Content [''AppID 42''])
     (\<lambda>a. Content [CHR 0x22, CHR ''n'', CHR ''a'', CHR ''m'', CHR ''e'', CHR 0x22, CHR 0x09,
                    CHR 0x22, CHR ''P'', CHR ''o'', CHR ''r'', CHR ''t'', CHR ''a'', CHR ''l'',
                    CHR 0x22])
     2 5 ''12:01:00''
     (state (display_info (Content [''AppID 42'']) (\<lambda>a. Absent) 1 5 ''12:00:00''
               \<lparr>current_appid = None, game_name = None\<rparr>)))) =
     Some (placeholder_name ''42'')"
  by code_simp

text \<open>
  C7 (the rate is shown only when it is present and the status is \<open>Downloading\<close>): a
  rate line among the messages of \<open>display_info\<close> means that the parse returned six
  values with the status \<open>Downloading\<close> and a rate, and the line is that rate formatted.
\<close>

theorem rate_shown_only_when_downloading:
  assumes "Speed_line x \<in> set (logged (display_info lf ms n t now mon))"
  shows "\<exists>m0 s. parse_log_file lf = (m0, Inr (Six s)) \<and>
                status s = Downloading \<and> speed s \<noteq> None \<and> x = format_speed (speed s)"
proof (cases "\<exists>m0 s. parse_log_file lf = (m0, Inr (Six s))")
  case True
  then obtain m0 s where p: "parse_log_file lf = (m0, Inr (Six s))"
    by blast
  from parse_log_file_messages [OF p] have "Speed_line x \<notin> set m0"
    by auto
  with assms have "Speed_line x \<in> set (logged (report ms n t now mon s))"
    by (simp add: display_info_Six [OF p])
  from report_speed_line [OF this] p show ?thesis
    by blast
next
  case False
  from display_info_not_Six [OF False, of ms n t now mon] assms
  have "Speed_line x \<in> set (fst (parse_log_file lf))"
    by simp
  with parse_log_file_messages [of lf "fst (parse_log_file lf)" "snd (parse_log_file lf)"]
  show ?thesis by auto
qed

theorem rate_shown_only_when_downloading_witness:
  "Speed_line ''12.50 Mbps'' \<in>
     set (logged (display_info (Content example_window) (\<lambda>a. Absent) 1 5 ''12:00:00''
                    \<lparr>current_appid = None, game_name = None\<rparr>)) \<and>
   (\<exists>m0 s. parse_log_file (Content example_window) = (m0, Inr (Six s)) \<and>
            status s = Downloading \<and> speed s \<noteq> None \<and>
            ''12.50 Mbps'' = format_speed (speed s))"
proof -
  have "Speed_line ''12.50 Mbps'' \<in>
     set (logged (display_info (Content example_window) (\<lambda>a. Absent) 1 5 ''12:00:00''
                    \<lparr>current_appid = None, game_name = None\<rparr>))"
    by (simp add: display_info_Six [OF parse_log_file_example] report_example)
  with rate_shown_only_when_downloading [OF this] show ?thesis
    by blast
qed

text \<open>
  C8 (the end-to-end example): the four-line window parses to the identifier \<^verbatim>\<open>42\<close>, the
  rate 12.5, the status \<open>Downloading\<close> and the progress 50 with 1000 of 2000 bytes, and the
  report has the rate \<^verbatim>\<open>12.50 Mbps\<close> and the progress \<^verbatim>\<open>50.0%\<close>.
\<close>

theorem end_to_end_example:
  "parse_lines [''update started : download 1000/2000'', ''AppID 42'',
                ''App update changed : Downloading'', ''Current download rate: 12.50 Mbps''] =
     Inr \<lparr>appid = Some ''42'', speed = Some (Num (25 / 2)), status = Downloading,
          progress = Some (Num 50), downloaded = Some 1000, total = Some 2000\<rparr> \<and>
   logged (display_info
             (Content [''update started : download 1000/2000'', ''AppID 42'',
                       ''App update changed : Downloading'',
                       ''Current download rate: 12.50 Mbps''])
             ms n t now mon) =
     [Rule_after_newline, Check_header n t now, Rule] @ fst (refresh_name ms ''42'' mon) @
     [Game_line (game_name (snd (refresh_name ms ''42'' mon))), AppID_line ''42'',
      Status_line Downloading, Speed_line ''12.50 Mbps'', Progress_line ''50.0%'',
      Loaded_line ''1000 B'' ''1.95 KB'', State_line Downloading]"
  using parse_example_window report_example [of ms n t now mon]
  by (simp add: display_info_Six [OF parse_log_file_example, unfolded example_window_def]
        example_window_def example_snapshot_def)

text \<open>
  C10 (a call whose window has no identifier leaves the last identifier and the name as
  they were): with no identifier parsed the call logs the header and "no active
  downloads" and returns the monitor unchanged; and whenever a call changes the monitor,
  the parse had a non-empty identifier different from the last one.
\<close>

theorem no_identifier_keeps_name_cache:
  "(\<forall>m0 s. parse_log_file lf = (m0, Inr (Six s)) \<and> appid s = None \<longrightarrow>
      display_info lf ms n t now mon =
        \<lparr>state = mon,
         logged = m0 @ [Rule_after_newline, Check_header n t now, Rule, No_active_downloads],
         raised = None\<rparr>) \<and>
   (state (display_info lf ms n t now mon) \<noteq> mon \<longrightarrow>
      (\<exists>m0 s a. parse_log_file lf = (m0, Inr (Six s)) \<and> appid s = Some a \<and> a \<noteq> [] \<and>
                 Some a \<noteq> current_appid mon))"
proof (intro conjI allI impI)
  fix m0 s
  assume "parse_log_file lf = (m0, Inr (Six s)) \<and> appid s = None"
  then show "display_info lf ms n t now mon =
        \<lparr>state = mon,
         logged = m0 @ [Rule_after_newline, Check_header n t now, Rule, No_active_downloads],
         raised = None\<rparr>"
    by (simp add: display_info_Six report_def)
next
  assume changed: "state (display_info lf ms n t now mon) \<noteq> mon"
  with display_info_not_Six [of lf ms n t now mon]
  obtain m0 s where p: "parse_log_file lf = (m0, Inr (Six s))"
    by blast
  with changed have c: "state (report ms n t now mon s) \<noteq> mon"
    by (simp add: display_info_state_Six)
  then obtain a where a: "appid s = Some a" "a \<noteq> []" "snd (refresh_name ms a mon) \<noteq> mon"
    by (auto simp: report_state_cases split: option.splits if_splits)
  from a(3) have "Some a \<noteq> current_appid mon"
    using refresh_name_same [of mon a ms] by (cases "current_appid mon = Some a") auto
  with p a show "\<exists>m0 s a. parse_log_file lf = (m0, Inr (Six s)) \<and> appid s = Some a \<and>
      a \<noteq> [] \<and> Some a \<noteq> current_appid mon"
    by blast
qed

theorem no_identifier_keeps_name_cache_witness:
  "parse_log_file (Content [''Current download rate: 12.50 Mbps'']) =
     ([], Inr (Six \<lparr>appid = None, speed = Some (Num (25 / 2)), status = Unknown,
                    progress = None, downloaded = None, total = None\<rparr>)) \<and>
   display_info (Content [''Current download rate: 12.50 Mbps'']) (\<lambda>a. Absent) 2 5 ''12:01:00''
      \<lparr>current_appid = Some ''42'', game_name = Some ''Portal''\<rparr> =
     \<lparr>state = \<lparr>current_appid = Some ''42'', game_name = Some ''Portal''\<rparr>,
      logged = [Rule_after_newline, Check_header 2 5 ''12:01:00'', Rule, No_active_downloads],
      raised = None\<rparr> \<and>
   state (display_info (Content example_window) (\<lambda>a. Absent) 1 5 ''12:00:00''
            \<lparr>current_appid = None, game_name = None\<rparr>) \<noteq>
     \<lparr>current_appid = None, game_name = None\<rparr> \<and>
   (\<exists>m0 s a. parse_log_file (Content example_window) = (m0, Inr (Six s)) \<and>
      appid s = Some a \<and> a \<noteq> [] \<and> Some a \<noteq> current_appid \<lparr>current_appid = None, game_name = None\<rparr>)"
proof -
  let ?s = "\<lparr>appid = None, speed = Some (Num (25 / 2)), status = Unknown,
             progress = None, downloaded = None, total = None\<rparr>"
  have p: "parse_log_file (Content [''Current download rate: 12.50 Mbps'']) = ([], Inr (Six ?s))"
    by code_simp
  have c: "state (display_info (Content example_window) (\<lambda>a. Absent) 1 5 ''12:00:00''
            \<lparr>current_appid = None, game_name = None\<rparr>) \<noteq>
     \<lparr>current_appid = None, game_name = None\<rparr>"
    by (simp add: display_info_state_Six [OF parse_log_file_example] report_state_cases
          example_snapshot_def refresh_name_def split: prod.splits)
  from no_identifier_keeps_name_cache
    [of "Content [''Current download rate: 12.50 Mbps'']" "\<lambda>a. Absent" 2 5 "''12:01:00''"
        "\<lparr>current_appid = Some ''42'', game_name = Some ''Portal''\<rparr>"] p
  have d: "display_info (Content [''Current download rate: 12.50 Mbps'']) (\<lambda>a. Absent) 2 5 ''12:01:00''
      \<lparr>current_appid = Some ''42'', game_name = Some ''Portal''\<rparr> =
     \<lparr>state = \<lparr>current_appid = Some ''42'', game_name = Some ''Portal''\<rparr>,
      logged = [Rule_after_newline, Check_header 2 5 ''12:01:00'', Rule, No_active_downloads],
      raised = None\<rparr>"
    by simp
  from no_identifier_keeps_name_cache
    [of "Content example_window" "\<lambda>a. Absent" 1 5 "''12:00:00''"
        "\<lparr>current_appid = None, game_name = None\<rparr>"] c
  have "\<exists>m0 s a. parse_log_file (Content example_window) = (m0, Inr (Six s)) \<and>
      appid s = Some a \<and> a \<noteq> [] \<and> Some a \<noteq> current_appid \<lparr>current_appid = None, game_name = None\<rparr>"
    by blast
  with p d c show ?thesis
    by blast
qed


section \<open>The formatters\<close>

subsection \<open>Rounding to a double\<close>

lemma pow2_powi: "pow2 e = 2 powi e"
  by (simp add: pow2_def power_int_def field_simps)

lemma pow2_pos: "0 < pow2 e"
  by (simp add: pow2_def)

lemma pow2_mono: "a \<le> b \<Longrightarrow> pow2 a \<le> pow2 b"
  by (simp add: pow2_powi power_int_increasing)

lemma pow2_diff: "pow2 (a - b) = pow2 a / pow2 b"
  by (simp add: pow2_powi power_int_diff)

lemma pow2_nat: "0 \<le> a \<Longrightarrow> pow2 a = 2 ^ nat a"
  by (simp add: pow2_def)

lemma round_half_even_le: "of_int (round_half_even x) \<le> x + 1"
proof -
  have "of_int (round_half_even x) \<le> of_int \<lfloor>x\<rfloor> + (1::rat)"
    by (simp add: round_half_even_def Let_def)
  moreover have "of_int \<lfloor>x\<rfloor> \<le> x"
    by (rule of_int_floor_le)
  ultimately show ?thesis
    by linarith
qed

lemma pow2_flog2_le:
  assumes "0 < q"
  shows "pow2 (flog2 q) \<le> q"
proof -
  obtain n d where nd: "quotient_of q = (n, d)"
    by (cases "quotient_of q")
  then have q: "q = of_int n / of_int d" and d: "0 < d"
    by (simp_all add: quotient_of_div quotient_of_denom_pos)
  with assms have n: "0 < n"
    by (simp add: zero_less_divide_iff)
  let ?k = "bitlen n - bitlen d"
  show ?thesis
  proof (cases "pow2 ?k \<le> q")
    case True
    with nd show ?thesis by (simp add: flog2_def)
  next
    case False
    from n have bn: "1 \<le> bitlen n"
      using bitlen_eq_zero_iff [of n] bitlen_nonneg [of n] by linarith
    from bitlen_bounds [OF n] have "(2::rat) ^ nat (bitlen n - 1) \<le> of_int n"
      by (metis of_int_le_iff of_int_numeral of_int_power)
    with bn have lo: "pow2 (bitlen n - 1) \<le> of_int n"
      by (simp add: pow2_nat)
    from bitlen_bounds [OF d] have "of_int d < (2::rat) ^ nat (bitlen d)"
      by (metis of_int_less_iff of_int_numeral of_int_power)
    then have hi: "of_int d \<le> pow2 (bitlen d)"
      by (simp add: pow2_nat bitlen_nonneg)
    have "pow2 (?k - 1) = pow2 (bitlen n - 1) / pow2 (bitlen d)"
      using pow2_diff [of "bitlen n - 1" "bitlen d"] by (simp add: algebra_simps)
    also have "\<dots> \<le> of_int n / of_int d"
      using lo hi d n pow2_pos [of "bitlen n - 1"]
      by (intro frac_le) simp_all
    finally show ?thesis
      using False nd q by (simp add: flog2_def)
  qed
qed

lemma round_double_finite:
  assumes "0 \<le> q" and "2 * q + 1 < double_limit"
  shows "\<exists>v. round_double q = Num v"
proof (cases "q = 0")
  case True
  then show ?thesis by (simp add: round_double_def)
next
  case False
  with assms(1) have qpos: "0 < q" by simp
  define e where "e = max (flog2 q - 52) (- 1074)"
  define m where "m = round_half_even (q / pow2 e)"
  have "pow2 e \<le> q + 1"
  proof (cases "flog2 q - 52 \<le> - 1074")
    case True
    then have "e = - 1074" by (simp add: e_def)
    then have "pow2 e \<le> pow2 0" by (intro pow2_mono) simp
    with qpos show ?thesis by (simp add: pow2_def)
  next
    case False
    then have "e \<le> flog2 q" by (simp add: e_def)
    then have "pow2 e \<le> pow2 (flog2 q)" by (rule pow2_mono)
    with pow2_flog2_le [OF qpos] show ?thesis by simp
  qed
  moreover have "of_int m * pow2 e \<le> q + pow2 e"
  proof -
    have "of_int m * pow2 e \<le> (q / pow2 e + 1) * pow2 e"
      unfolding m_def using round_half_even_le [of "q / pow2 e"] pow2_pos [of e]
      by (intro mult_right_mono) simp_all
    also have "\<dots> = q + pow2 e"
      using pow2_pos [of e] by (simp add: field_simps)
    finally show ?thesis .
  qed
  ultimately have "of_int m * pow2 e < double_limit"
    using assms(2) by simp
  with False show ?thesis
    by (simp add: round_double_def Let_def e_def m_def)
qed

lemma int_truediv_finite:
  assumes "0 \<le> a" and "0 < b" and "2 * (of_int a / of_int b) + 1 < double_limit"
  shows "\<exists>v. int_truediv a b = Inr (Num v)"
proof -
  from assms(1,2) have "(0::rat) \<le> of_int a / of_int b" by simp
  from round_double_finite [OF this assms(3)] assms(2) show ?thesis
    by (auto simp: int_truediv_def)
qed

lemma int_truediv_small:
  assumes "0 \<le> a" and "0 < b" and "a < 2 ^ 1022 * b"
  shows "\<exists>v. int_truediv a b = Inr (Num v)"
proof -
  have "(of_int a :: rat) < of_int (2 ^ 1022 * b)"
    using assms(3) by (simp only: of_int_less_iff)
  then have "(of_int a :: rat) / of_int b < 2 ^ 1022"
    using assms(2) by (simp add: divide_less_eq)
  then have "2 * ((of_int a :: rat) / of_int b) + 1 < 2 * 2 ^ 1022 + 1"
    by simp
  also have "\<dots> < double_limit"
    by (simp add: double_limit_def)
  finally show ?thesis
    using assms(1,2) by (intro int_truediv_finite)
qed

lemma format_size_total:
  assumes "b < 2 ^ 1052"
  shows "\<exists>text. format_size (Some b) = Inr text"
proof (cases "b < 1024")
  case True
  then show ?thesis by (simp add: format_size_def)
next
  case False
  then have b: "0 \<le> b" by simp
  from assms have "\<exists>v. int_truediv b (1024 ^ 3) = Inr (Num v)"
    by (intro int_truediv_small [OF b]) simp_all
  moreover have "\<exists>v. int_truediv b (1024 ^ 2) = Inr (Num v)" if "b < 1024 ^ 3"
    using that by (intro int_truediv_small [OF b]) simp_all
  moreover have "\<exists>v. int_truediv b 1024 = Inr (Num v)" if "b < 1024 ^ 2"
    using that by (intro int_truediv_small [OF b]) simp_all
  ultimately show ?thesis
    by (auto simp: format_size_def)
qed

lemma round_half_even_ge: "x - 1 \<le> of_int (round_half_even x)"
proof -
  have "of_int \<lfloor>x\<rfloor> \<le> (of_int (round_half_even x) :: rat)"
    by (simp add: round_half_even_def Let_def)
  moreover have "x - 1 \<le> of_int \<lfloor>x\<rfloor>"
    by linarith
  ultimately show ?thesis
    by linarith
qed

lemma round_double_overflow:
  assumes "2 * double_limit \<le> q"
  shows "round_double q = PosInf"
proof -
  have dl: "1 \<le> double_limit"
    by (simp add: double_limit_def)
  with assms have qpos: "0 < q" and q2: "2 \<le> q"
    by linarith+
  define e where "e = max (flog2 q - 52) (- 1074)"
  define m where "m = round_half_even (q / pow2 e)"
  have half: "pow2 e \<le> q / 2"
  proof (cases "flog2 q - 52 \<le> - 1074")
    case True
    then have "e = - 1074" by (simp add: e_def)
    then have "pow2 e \<le> pow2 0" by (intro pow2_mono) simp
    with q2 show ?thesis by (simp add: pow2_def)
  next
    case False
    then have "e = flog2 q - 52" by (simp add: e_def)
    then have "pow2 e = pow2 (flog2 q) / pow2 52"
      by (simp add: pow2_diff)
    also have "\<dots> \<le> q / pow2 52"
      using pow2_flog2_le [OF qpos] pow2_pos [of 52] by (simp add: divide_right_mono)
    also have "\<dots> \<le> q / 2"
      using qpos by (simp add: pow2_def)
    finally show ?thesis .
  qed
  have "q - pow2 e = (q / pow2 e - 1) * pow2 e"
    using pow2_pos [of e] by (simp add: field_simps)
  also have "\<dots> \<le> of_int m * pow2 e"
    unfolding m_def using round_half_even_ge [of "q / pow2 e"] pow2_pos [of e]
    by (intro mult_right_mono) simp_all
  finally have "double_limit \<le> of_int m * pow2 e"
    using half assms by linarith
  with qpos show ?thesis
    by (simp add: round_double_def Let_def e_def m_def)
qed

lemma format_size_overflow:
  assumes "2 ^ 1055 \<le> b"
  shows "format_size (Some b) = Inl OverflowError"
proof -
  have "(2::rat) ^ 1055 \<le> of_int b"
    using assms by (metis of_int_le_iff of_int_numeral of_int_power)
  then have "2 * double_limit \<le> of_int b / of_int (1024 ^ 3)"
    by (simp add: double_limit_def le_divide_eq)
  then have "round_double (of_int b / of_int (1024 ^ 3)) = PosInf"
    by (rule round_double_overflow)
  moreover from assms have "(1024::int) ^ 3 \<le> b"
    by simp
  ultimately show ?thesis
    by (simp add: format_size_def int_truediv_def)
qed

subsection \<open>The thresholds\<close>

lemma format_speed_below_threshold:
  "format_speed (Some (round_double (99999 / 100))) = ''999.99 Mbps''"
  by code_simp

lemma format_speed_at_threshold:
  "format_speed (Some (round_double 1000)) = ''1.00 Gbps''"
  by code_simp

lemma format_size_thresholds:
  "format_size (Some 1023) = Inr ''1023 B''"
  "format_size (Some 1024) = Inr ''1.00 KB''"
  "format_size (Some 1073741824) = Inr ''1.00 GB''"
  by code_simp+

lemma format_absent:
  "format_speed None = unknown_text" "format_size None = Inr unknown_text"
  by (simp_all add: format_speed_def format_size_def)

text \<open>
  C9 (the formatters are total, meet the five threshold equalities and map an absent input
  to the sentinel), as the code has it: the equalities hold, with 999.99 and 1000.0 the
  doubles nearest to these decimals; an absent input gives the sentinel; \<open>format_speed\<close>
  raises nowhere; and \<open>format_size\<close> returns a string for every byte count below
  \<open>2\<^sup>1\<^sup>0\<^sup>5\<^sup>2\<close>, so for every 64-bit count.
\<close>

theorem formatter_thresholds:
  "format_speed (Some (round_double (99999 / 100))) = ''999.99 Mbps'' \<and>
   format_speed (Some (round_double 1000)) = ''1.00 Gbps'' \<and>
   format_size (Some 1023) = Inr ''1023 B'' \<and>
   format_size (Some 1024) = Inr ''1.00 KB'' \<and>
   format_size (Some 1073741824) = Inr ''1.00 GB'' \<and>
   format_speed None = unknown_text \<and>
   format_size None = Inr unknown_text \<and>
   (\<forall>b. b < 2 ^ 1052 \<longrightarrow> (\<exists>text. format_size (Some b) = Inr text))"
  using format_speed_below_threshold format_speed_at_threshold format_size_thresholds
    format_absent format_size_total
  by blast

theorem formatter_thresholds_witness:
  "(2 ^ 64 - 1 :: int) < 2 ^ 1052 \<and> (\<exists>text. format_size (Some (2 ^ 64 - 1)) = Inr text)"
proof -
  have "(2 ^ 64 - 1 :: int) < 2 ^ 1052" by simp
  with formatter_thresholds show ?thesis by blast
qed

text \<open>The claim as stated fails for \<open>format_size\<close>: Python's integers are unbounded, and
  the division of a count from \<open>2\<^sup>1\<^sup>0\<^sup>5\<^sup>5\<close> on by \<open>1024\<^sup>3\<close> has no double to return.\<close>

theorem format_size_overflow_counterexample:
  "format_size (Some (2 ^ 1055)) = Inl OverflowError"
  by (simp add: format_size_overflow)

end
